theory Spec2Isabelle
  imports Main "HOL-Library.Sublist"
begin

section \<open>Python string primitives\<close>

text \<open>
  A Python \<^verbatim>\<open>str\<close> is modelled as a \<^typ>\<open>string\<close>, a list of characters; a character
  stands for the code point of the same number, so the model covers the code points
  below 256. \<^verbatim>\<open>len\<close> is \<^const>\<open>length\<close> and \<^verbatim>\<open>+\<close> on strings is \<open>@\<close>.

  \<^verbatim>\<open>str.isspace\<close> holds below 256 for the code points 9 to 13, 28 to 32, 133 and 160;
  \<^verbatim>\<open>str.lower\<close> moves the capital letters (65 to 90, 192 to 214, 216 to 222) up by 32
  and leaves every other character alone.
\<close>

definition isspace :: "char \<Rightarrow> bool" where
  "isspace c =
     (let n = (of_char c :: nat)
      in (9 \<le> n \<and> n \<le> 13) \<or> (28 \<le> n \<and> n \<le> 32) \<or> n = 133 \<or> n = 160)"

definition lower_char :: "char \<Rightarrow> char" where
  "lower_char c =
     (let n = (of_char c :: nat)
      in if (65 \<le> n \<and> n \<le> 90) \<or> (192 \<le> n \<and> n \<le> 214) \<or> (216 \<le> n \<and> n \<le> 222)
         then char_of (n + 32) else c)"

definition lower :: "string \<Rightarrow> string" where
  "lower s = map lower_char s"

definition lstrip :: "string \<Rightarrow> string" where
  "lstrip s = dropWhile isspace s"

definition rstrip :: "string \<Rightarrow> string" where
  "rstrip s = rev (dropWhile isspace (rev s))"

text \<open>\<^verbatim>\<open>s.strip()\<close> with no argument removes whitespace at both ends.\<close>

definition strip :: "string \<Rightarrow> string" where
  "strip s = rstrip (lstrip s)"

text \<open>\<^verbatim>\<open>s.startswith(t)\<close>, \<^verbatim>\<open>s.endswith(t)\<close> and \<^verbatim>\<open>sub in s\<close>.\<close>

definition startswith :: "string \<Rightarrow> string \<Rightarrow> bool" where
  "startswith s t = (take (length t) s = t)"

definition endswith :: "string \<Rightarrow> string \<Rightarrow> bool" where
  "endswith s t = (length t \<le> length s \<and> drop (length s - length t) s = t)"

fun str_in :: "string \<Rightarrow> string \<Rightarrow> bool" where
  "str_in sub [] = (sub = [])"
| "str_in sub (c # cs) = (startswith (c # cs) sub \<or> str_in sub cs)"

text \<open>\<^verbatim>\<open>sep.join(xs)\<close>.\<close>

fun join :: "string \<Rightarrow> string list \<Rightarrow> string" where
  "join sep [] = []"
| "join sep [x] = x"
| "join sep (x # y # ys) = x @ sep @ join sep (y # ys)"

section \<open>The knowledge base\<close>

text \<open>
  \<^verbatim>\<open>knowledge_base\<close> is the dictionary that \<^verbatim>\<open>json.load\<close> returns for the knowledge
  file: topic name to topic object. Python dictionaries iterate in insertion order, and
  the matcher depends on that order, so the store is an association list in file order.
  A topic object has the optional fields \<^verbatim>\<open>aliases\<close> (an array of strings),
  \<^verbatim>\<open>description\<close>, \<^verbatim>\<open>details\<close>, \<^verbatim>\<open>website\<close> and \<^verbatim>\<open>contact\<close> (strings); a field that
  the object lacks is \<^const>\<open>None\<close>, which is what \<^verbatim>\<open>data.get(field, default)\<close> tells apart
  from a field that is present and empty.
\<close>

record topic =
  aliases :: "string list option"
  description :: "string option"
  details :: "string option"
  website :: "string option"
  contact :: "string option"

type_synonym store = "(string \<times> topic) list"

text \<open>\<^verbatim>\<open>data.get(field, default)\<close>.\<close>

definition get_or :: "'a option \<Rightarrow> 'a \<Rightarrow> 'a" where
  "get_or field dflt = (case field of None \<Rightarrow> dflt | Some v \<Rightarrow> v)"

section \<open>The AI core: \<^verbatim>\<open>get_ai_response\<close>\<close>

text \<open>
  \<^verbatim>\<open>triggers = [key.lower()] + [alias.lower() for alias in data.get("aliases", [])]\<close>
\<close>

definition triggers :: "string \<Rightarrow> topic \<Rightarrow> string list" where
  "triggers key data = [lower key] @ map lower (get_or (aliases data) [])"

text \<open>
  The condition of the generator inside \<^verbatim>\<open>any(...)\<close>, for one trigger, in the order the
  source writes its four disjuncts.
\<close>

definition trigger_hit :: "string \<Rightarrow> string \<Rightarrow> bool" where
  "trigger_hit message_lower trigger =
     (str_in ('' '' @ trigger @ '' '') ('' '' @ message_lower @ '' '')
      \<or> startswith message_lower trigger
      \<or> endswith message_lower trigger
      \<or> message_lower = trigger)"

definition topic_matched :: "string \<Rightarrow> string \<Rightarrow> topic \<Rightarrow> bool" where
  "topic_matched message_lower key data =
     list_ex (trigger_hit message_lower) (triggers key data)"

text \<open>The body of the \<^verbatim>\<open>if\<close> inside the loop: the reply for a matched topic.\<close>

definition topic_response :: "string \<Rightarrow> topic \<Rightarrow> string" where
  "topic_response key data =
     (let description = get_or (description data) ''No description available.'';
          details = get_or (details data) '''';
          website = get_or (website data) '''';
          contact = get_or (contact data) '''';
          response = ''Regarding '' @ key @ '':'' @ [CHR 0x0A];
          response = response @ description;
          response = (if details \<noteq> [] then response @ [CHR 0x0A] @ ''More Info: '' @ details
                      else response);
          response = (if website \<noteq> [] then response @ [CHR 0x0A] @ ''Website: '' @ website
                      else response);
          response = (if contact \<noteq> [] then response @ [CHR 0x0A] @ ''Contact: '' @ contact
                      else response)
      in response)"

text \<open>
  The \<^verbatim>\<open>for key, data in knowledge_base.items()\<close> loop. Its state is the pair of the
  variables \<^verbatim>\<open>response\<close> and \<^verbatim>\<open>matched\<close>; the \<^verbatim>\<open>break\<close> ends the recursion.
\<close>

fun kb_loop :: "store \<Rightarrow> string \<Rightarrow> string \<times> bool \<Rightarrow> string \<times> bool" where
  "kb_loop [] message_lower (response, matched) = (response, matched)"
| "kb_loop ((key, data) # rest) message_lower (response, matched) =
     (if topic_matched message_lower key data
      then (topic_response key data, True)
      else kb_loop rest message_lower (response, matched))"

definition fallback_response :: "store \<Rightarrow> string \<Rightarrow> string \<Rightarrow> string \<Rightarrow> string" where
  "fallback_response kb player_name message_lower response =
     (if str_in ''hello'' message_lower \<or> str_in ''hi'' message_lower
      then ''Hello '' @ player_name
             @ ''! How can I help? Ask me about the businesses or items here.''
      else if str_in ''help'' message_lower \<or> str_in ''what can you do'' message_lower
      then (let business_names = join '', '' (map fst kb);
                business_names = (if business_names = [] then ''any specific topics yet''
                                  else business_names)
            in ''I can tell you about: '' @ business_names
                 @ ''. I also notify owners when certain items are interacted with.'')
      else if str_in ''thank'' message_lower
      then ''You're welcome, '' @ player_name @ ''!''
      else response)"

definition default_response :: "string \<Rightarrow> string" where
  "default_response player_name =
     ''Sorry '' @ player_name
       @ '', I didn't quite catch that. You can ask me about the businesses or topics I know.''"

definition get_ai_response :: "store \<Rightarrow> string \<Rightarrow> string \<Rightarrow> string" where
  "get_ai_response kb player_name message =
     (let message_lower = strip (lower message);
          response = default_response player_name;
          (response, matched) = kb_loop kb message_lower (response, False);
          response = (if \<not> matched
                      then fallback_response kb player_name message_lower response
                      else response)
      in strip response)"

section \<open>The AI core over the store as it was loaded\<close>

text \<open>
  \<^verbatim>\<open>load_knowledge_base\<close> assigns whatever \<^verbatim>\<open>json.load\<close> returns and \<^verbatim>\<open>load_config\<close>
  merges whatever the configuration file holds: nothing checks the shape. A JSON value
  is a \<open>json\<close>; an object is the list of its items in the order of the dictionary. A
  number is modelled by an integer; numbers with a fraction are outside the model.
\<close>

datatype json =
    JNull
  | JBool bool
  | JNum int
  | JStr string
  | JArr "json list"
  | JObj "(string \<times> json) list"

text \<open>The exceptions that the modelled code can meet.\<close>

datatype exn = HTTPError nat | RequestException | OtherError | TypeError | AttributeError

text \<open>\<^verbatim>\<open>d.get(key, default)\<close> on a dictionary, and the truth value of a value.\<close>

definition dict_get :: "(string \<times> json) list \<Rightarrow> string \<Rightarrow> json \<Rightarrow> json" where
  "dict_get items key dflt = (case map_of items key of None \<Rightarrow> dflt | Some v \<Rightarrow> v)"

definition py_truthy :: "json \<Rightarrow> bool" where
  "py_truthy v =
     (case v of
        JNull \<Rightarrow> False
      | JBool b \<Rightarrow> b
      | JNum n \<Rightarrow> n \<noteq> 0
      | JStr s \<Rightarrow> s \<noteq> []
      | JArr xs \<Rightarrow> xs \<noteq> []
      | JObj items \<Rightarrow> items \<noteq> [])"

text \<open>The strings of a list, when all its elements are strings.\<close>

fun strings_of :: "json list \<Rightarrow> string list option" where
  "strings_of [] = Some []"
| "strings_of (JStr s # rest) = map_option (\<lambda>ss. s # ss) (strings_of rest)"
| "strings_of (v # rest) = None"

text \<open>
  An f-string field \<^verbatim>\<open>{v}\<close> is \<^verbatim>\<open>v\<close> itself for a string. For every other value it is
  Python's \<^verbatim>\<open>str(v)\<close>, which is a parameter of the model.
\<close>

definition py_format :: "(json \<Rightarrow> string) \<Rightarrow> json \<Rightarrow> string" where
  "py_format str_of v = (case v of JStr s \<Rightarrow> s | _ \<Rightarrow> str_of v)"

text \<open>
  \<^verbatim>\<open>[alias.lower() for alias in aliases]\<close>: a list gives its elements, and an element
  that is not a string has no \<^verbatim>\<open>lower\<close>; a string gives its characters; a dictionary
  gives its keys; \<^verbatim>\<open>None\<close>, a boolean and a number cannot be iterated.
\<close>

definition raw_aliases :: "json \<Rightarrow> exn + string list" where
  "raw_aliases v =
     (case v of
        JArr xs \<Rightarrow>
          (case strings_of xs of None \<Rightarrow> Inl AttributeError | Some ss \<Rightarrow> Inr (map lower ss))
      | JStr s \<Rightarrow> Inr (map (\<lambda>c. lower [c]) s)
      | JObj items \<Rightarrow> Inr (map (\<lambda>(k, x). lower k) items)
      | _ \<Rightarrow> Inl TypeError)"

text \<open>The line that computes \<^verbatim>\<open>triggers\<close>; \<^verbatim>\<open>data.get\<close> exists only on a dictionary.\<close>

definition raw_triggers :: "string \<Rightarrow> json \<Rightarrow> exn + string list" where
  "raw_triggers key data =
     (case data of
        JObj entries \<Rightarrow>
          (case raw_aliases (dict_get entries ''aliases'' (JArr [])) of
             Inl e \<Rightarrow> Inl e
           | Inr lowered \<Rightarrow> Inr ([lower key] @ lowered))
      | _ \<Rightarrow> Inl AttributeError)"

definition raw_topic_response :: "(json \<Rightarrow> string) \<Rightarrow> string \<Rightarrow> (string \<times> json) list \<Rightarrow> string" where
  "raw_topic_response str_of key entries =
     (let description = dict_get entries ''description'' (JStr ''No description available.'');
          details = dict_get entries ''details'' (JStr []);
          website = dict_get entries ''website'' (JStr []);
          contact = dict_get entries ''contact'' (JStr []);
          response = ''Regarding '' @ key @ '':'' @ [CHR 0x0A];
          response = response @ py_format str_of description;
          response = (if py_truthy details
                      then response @ [CHR 0x0A] @ ''More Info: '' @ py_format str_of details
                      else response);
          response = (if py_truthy website
                      then response @ [CHR 0x0A] @ ''Website: '' @ py_format str_of website
                      else response);
          response = (if py_truthy contact
                      then response @ [CHR 0x0A] @ ''Contact: '' @ py_format str_of contact
                      else response)
      in response)"

fun raw_kb_loop ::
    "(json \<Rightarrow> string) \<Rightarrow> (string \<times> json) list \<Rightarrow> string \<Rightarrow> string \<times> bool
      \<Rightarrow> exn + string \<times> bool" where
  "raw_kb_loop str_of [] message_lower (response, matched) = Inr (response, matched)"
| "raw_kb_loop str_of ((key, data) # rest) message_lower (response, matched) =
     (case raw_triggers key data of
        Inl e \<Rightarrow> Inl e
      | Inr found \<Rightarrow>
          if list_ex (trigger_hit message_lower) found
          then (case data of
                  JObj entries \<Rightarrow> Inr (raw_topic_response str_of key entries, True)
                | _ \<Rightarrow> Inl AttributeError)
          else raw_kb_loop str_of rest message_lower (response, matched))"

text \<open>The fallback replies, over the keys of the dictionary.\<close>

definition raw_fallback_response :: "string list \<Rightarrow> string \<Rightarrow> string \<Rightarrow> string \<Rightarrow> string" where
  "raw_fallback_response keys player_name message_lower response =
     (if str_in ''hello'' message_lower \<or> str_in ''hi'' message_lower
      then ''Hello '' @ player_name
             @ ''! How can I help? Ask me about the businesses or items here.''
      else if str_in ''help'' message_lower \<or> str_in ''what can you do'' message_lower
      then (let business_names = join '', '' keys;
                business_names = (if business_names = [] then ''any specific topics yet''
                                  else business_names)
            in ''I can tell you about: '' @ business_names
                 @ ''. I also notify owners when certain items are interacted with.'')
      else if str_in ''thank'' message_lower
      then ''You're welcome, '' @ player_name @ ''!''
      else response)"

text \<open>
  \<^verbatim>\<open>get_ai_response\<close> over any loaded value: \<^const>\<open>Inl\<close> is an exception that leaves
  the function. \<^verbatim>\<open>knowledge_base.items()\<close> exists only on a dictionary.
\<close>

definition get_ai_response_raw ::
    "(json \<Rightarrow> string) \<Rightarrow> json \<Rightarrow> string \<Rightarrow> string \<Rightarrow> exn + string" where
  "get_ai_response_raw str_of kb player_name message =
     (let message_lower = strip (lower message);
          response = default_response player_name
      in case kb of
           JObj items \<Rightarrow>
             (case raw_kb_loop str_of items message_lower (response, False) of
                Inl e \<Rightarrow> Inl e
              | Inr (response, matched) \<Rightarrow>
                  Inr (strip (if \<not> matched
                              then raw_fallback_response (map fst items) player_name
                                     message_lower response
                              else response)))
         | _ \<Rightarrow> Inl AttributeError)"

text \<open>
  The knowledge file format: a typed store as the JSON value it is loaded from, a field
  that is \<^const>\<open>None\<close> being absent from its object.
\<close>

definition opt_field :: "string \<Rightarrow> json option \<Rightarrow> (string \<times> json) list" where
  "opt_field name v = (case v of None \<Rightarrow> [] | Some x \<Rightarrow> [(name, x)])"

definition topic_entries :: "topic \<Rightarrow> (string \<times> json) list" where
  "topic_entries data =
     opt_field ''aliases'' (map_option (\<lambda>xs. JArr (map JStr xs)) (aliases data))
       @ opt_field ''description'' (map_option JStr (description data))
       @ opt_field ''details'' (map_option JStr (details data))
       @ opt_field ''website'' (map_option JStr (website data))
       @ opt_field ''contact'' (map_option JStr (contact data))"

definition json_of_topic :: "topic \<Rightarrow> json" where
  "json_of_topic data = JObj (topic_entries data)"

definition json_of_store :: "store \<Rightarrow> json" where
  "json_of_store kb = JObj (map (\<lambda>(key, data). (key, json_of_topic data)) kb)"

text \<open>
  The shape that keeps the loop from raising: the store is an object, every topic is an
  object, and \<^verbatim>\<open>aliases\<close>, where a topic has it, is an array of strings.
\<close>

definition aliases_ok :: "json \<Rightarrow> bool" where
  "aliases_ok data =
     (case data of
        JObj entries \<Rightarrow>
          (case map_of entries ''aliases'' of
             None \<Rightarrow> True
           | Some (JArr xs) \<Rightarrow> strings_of xs \<noteq> None
           | Some _ \<Rightarrow> False)
      | _ \<Rightarrow> False)"

definition well_formed_store :: "json \<Rightarrow> bool" where
  "well_formed_store kb =
     (case kb of JObj items \<Rightarrow> list_all (\<lambda>(key, data). aliases_ok data) items | _ \<Rightarrow> False)"

section \<open>Module globals\<close>

text \<open>
  The monolithic service keeps its state in module globals: \<^verbatim>\<open>CONFIG\<close>,
  \<^verbatim>\<open>knowledge_base\<close> and \<^verbatim>\<open>vrchat_osc_client\<close>. The model passes them as a record.
  A key that \<^verbatim>\<open>CONFIG.get\<close> does not find is \<^const>\<open>None\<close>; the webhook URL and
  the owner ids are the values of the configuration file, of any shape;
  \<^verbatim>\<open>vrchat_osc_client\<close> is \<^const>\<open>None\<close> until \<^verbatim>\<open>initialize_osc_client\<close> succeeds.
\<close>

record config =
  discord_webhook_url :: "json option"
  owner_discord_ids :: "json option"
  knowledge_base_file :: "string option"

datatype osc_client = SimpleUDPClient string nat

record globals =
  CONFIG :: config
  knowledge_base :: store
  vrchat_osc_client :: "osc_client option"

section \<open>Loading the knowledge base\<close>

text \<open>
  What \<^verbatim>\<open>open(kb_file)\<close> followed by \<^verbatim>\<open>json.load\<close> does for a path: it raises
  \<^verbatim>\<open>FileNotFoundError\<close>, \<^verbatim>\<open>json.JSONDecodeError\<close> or some other exception, or it
  returns the parsed object. The file system is a parameter of the model.
\<close>

datatype file_read = FileNotFoundError | JSONDecodeError | OtherException | Loaded store

definition load_knowledge_base :: "(string \<Rightarrow> file_read) \<Rightarrow> globals \<Rightarrow> globals" where
  "load_knowledge_base files g =
     (let kb_file = get_or (knowledge_base_file (CONFIG g)) ''knowledge_base.json''
      in case files kb_file of
           Loaded kb \<Rightarrow> g\<lparr>knowledge_base := kb\<rparr>
         | FileNotFoundError \<Rightarrow> g\<lparr>knowledge_base := []\<rparr>
         | JSONDecodeError \<Rightarrow> g\<lparr>knowledge_base := []\<rparr>
         | OtherException \<Rightarrow> g\<lparr>knowledge_base := []\<rparr>)"

section \<open>OSC: sending and the chat handler\<close>

text \<open>
  An OSC argument arrives with the type the sender gave it. What a handler does to the
  outside is recorded as a list of effects, in order: a call of the AI core, a call of
  \<^verbatim>\<open>vrchat_osc_client.send_message\<close>, a call of \<^verbatim>\<open>requests.post\<close>. Console output is
  left out.
\<close>

datatype osc_value = OscStr string | OscInt int | OscBool bool | OscBlob "nat list" | OscNil

datatype effect =
    GetAiResponse string string
  | SendMessage string "osc_value list"
  | Post json string nat

text \<open>
  \<^verbatim>\<open>send_osc_to_vrchat\<close> returns without sending when the client is \<^const>\<open>None\<close>; an
  exception of \<^verbatim>\<open>send_message\<close> is caught and printed, after the call was made.
\<close>

definition send_osc_to_vrchat :: "globals \<Rightarrow> string \<Rightarrow> osc_value list \<Rightarrow> effect list" where
  "send_osc_to_vrchat g address args =
     (case vrchat_osc_client g of
        None \<Rightarrow> []
      | Some client \<Rightarrow> [SendMessage address args])"

definition handle_chat_message :: "globals \<Rightarrow> string \<Rightarrow> string \<Rightarrow> osc_value \<Rightarrow> effect list" where
  "handle_chat_message g playerName playerId message =
     (case message of
        OscStr s \<Rightarrow>
          if strip s = [] then []
          else
            (let message = strip s;
                 ai_response = get_ai_response (knowledge_base g) playerName message;
                 osc_chat_address = ''/avatar/parameters/Chatbox'';
                 max_len = 144;
                 ai_response_truncated =
                   (if length ai_response > max_len
                    then take (max_len - 3) ai_response @ ''...''
                    else ai_response)
             in GetAiResponse playerName message
                  # send_osc_to_vrchat g osc_chat_address [OscBool True, OscStr ai_response_truncated])
      | _ \<Rightarrow> [])"

definition sent_messages :: "effect list \<Rightarrow> effect list" where
  "sent_messages es = filter (\<lambda>e. case e of SendMessage a xs \<Rightarrow> True | _ \<Rightarrow> False) es"

definition ai_calls :: "effect list \<Rightarrow> effect list" where
  "ai_calls es = filter (\<lambda>e. case e of GetAiResponse p m \<Rightarrow> True | _ \<Rightarrow> False) es"

section \<open>The notification manager\<close>

text \<open>
  \<^verbatim>\<open>requests.post(webhook_url, json=payload, timeout=10)\<close> returns a response with a
  status code, raises a \<^verbatim>\<open>RequestException\<close> (connection error, timeout, a URL it
  cannot use) or raises something else; the transport is a parameter. Every call is
  recorded with the arguments it was made with.
\<close>

datatype http_result = Response nat | RaisesRequestException | RaisesOther

datatype notify_outcome = Skipped | Delivered | RequestFailed | UnexpectedFailure

type_synonym transport = "json \<Rightarrow> string \<Rightarrow> nat \<Rightarrow> http_result"

definition requests_post ::
    "transport \<Rightarrow> json \<Rightarrow> string \<Rightarrow> nat \<Rightarrow> http_result \<times> effect list" where
  "requests_post post url content timeout =
     (post url content timeout, [Post url content timeout])"

text \<open>
  \<^verbatim>\<open>response.raise_for_status()\<close> raises \<^verbatim>\<open>HTTPError\<close>, a \<^verbatim>\<open>RequestException\<close>, for
  the codes 400 to 599.
\<close>

definition raise_for_status :: "nat \<Rightarrow> exn + unit" where
  "raise_for_status status =
     (if 400 \<le> status \<and> status < 600 then Inl (HTTPError status) else Inr ())"

text \<open>
  The body of the \<^verbatim>\<open>try\<close>: the post with timeout 10, then the status check. It
  returns what the body raised, if anything, and the posts that were made.
\<close>

definition post_and_check :: "transport \<Rightarrow> json \<Rightarrow> string \<Rightarrow> (exn + unit) \<times> effect list" where
  "post_and_check post webhook_url content =
     (let (response, posted) = requests_post post webhook_url content 10
      in (case response of
            Response status \<Rightarrow> raise_for_status status
          | RaisesRequestException \<Rightarrow> Inl RequestException
          | RaisesOther \<Rightarrow> Inl OtherError,
          posted))"

text \<open>
  The two \<^verbatim>\<open>except\<close> clauses: \<^verbatim>\<open>RequestException\<close> with its subclass \<^verbatim>\<open>HTTPError\<close>,
  then \<^verbatim>\<open>Exception\<close>. Both print and return.
\<close>

definition except_clauses :: "exn \<Rightarrow> notify_outcome" where
  "except_clauses e =
     (case e of
        HTTPError status \<Rightarrow> RequestFailed
      | RequestException \<Rightarrow> RequestFailed
      | _ \<Rightarrow> UnexpectedFailure)"

text \<open>
  \<^verbatim>\<open>sep.join(v)\<close> on a loaded value: the elements of a list must all be strings; a
  string gives its characters, a dictionary its keys; anything else cannot be iterated.
\<close>

definition join_json :: "string \<Rightarrow> json \<Rightarrow> exn + string" where
  "join_json sep v =
     (case v of
        JArr xs \<Rightarrow> (case strings_of xs of None \<Rightarrow> Inl TypeError | Some ss \<Rightarrow> Inr (join sep ss))
      | JStr s \<Rightarrow> Inr (join sep (map (\<lambda>c. [c]) s))
      | JObj items \<Rightarrow> Inr (join sep (map fst items))
      | _ \<Rightarrow> Inl TypeError)"

text \<open>
  The result is what the caller sees (\<^const>\<open>Inl\<close>: an exception leaves the function)
  and the posts that were made. The line that joins the owner ids stands before the
  \<^verbatim>\<open>try\<close>, so what it raises leaves the function.
\<close>

definition send_discord_notification ::
    "transport \<Rightarrow> globals \<Rightarrow> string \<Rightarrow> (exn + notify_outcome) \<times> effect list" where
  "send_discord_notification post g message =
     (let webhook_url = get_or (discord_webhook_url (CONFIG g)) JNull
      in if \<not> py_truthy webhook_url then (Inr Skipped, [])
         else
           (let owner_ids = get_or (owner_discord_ids (CONFIG g)) (JArr [])
            in case (if py_truthy owner_ids then join_json '' '' owner_ids else Inr []) of
                 Inl e \<Rightarrow> (Inl e, [])
               | Inr owner_pings \<Rightarrow>
                   (let content = strip (owner_pings @ [CHR 0x0A] @ message);
                        (result, posted) = post_and_check post webhook_url content
                    in (case result of
                          Inr u \<Rightarrow> Inr Delivered
                        | Inl e \<Rightarrow> Inr (except_clauses e),
                        posted))))"

section \<open>The specification's wording of the matcher\<close>

text \<open>
  The matching rule as the specification words it, for the comparison with
  \<^const>\<open>topic_matched\<close>: the triggers of a topic are its lower-cased key and its
  lower-cased aliases; a text matches a topic when it equals a trigger, starts with one,
  ends with one, or contains one with a single space on each side, both the text and the
  trigger being padded with one space on each side.
\<close>

definition spec_triggers :: "string \<Rightarrow> topic \<Rightarrow> string set" where
  "spec_triggers key data = insert (lower key) (lower ` set (get_or (aliases data) []))"

definition spec_matched :: "string \<Rightarrow> string \<Rightarrow> topic \<Rightarrow> bool" where
  "spec_matched text key data =
     (\<exists>t \<in> spec_triggers key data.
        text = t \<or> prefix t text \<or> suffix t text
        \<or> sublist ('' '' @ t @ '' '') ('' '' @ text @ '' ''))"

text \<open>Every trigger that some topic of a store has.\<close>

definition all_triggers :: "store \<Rightarrow> string list" where
  "all_triggers kb = concat (map (\<lambda>(key, data). triggers key data) kb)"

text \<open>A chat message the handler accepts: a string that is not empty after trimming.\<close>

definition valid_chat :: "osc_value \<Rightarrow> bool" where
  "valid_chat message = (case message of OscStr s \<Rightarrow> strip s \<noteq> [] | _ \<Rightarrow> False)"

text \<open>
  The lines that \<^const>\<open>topic_response\<close> appends after the description, each only when
  its field is present and not empty.
\<close>

definition extra_lines :: "topic \<Rightarrow> string" where
  "extra_lines data =
     (if get_or (details data) [] \<noteq> []
      then [CHR 0x0A] @ ''More Info: '' @ get_or (details data) [] else [])
     @ (if get_or (website data) [] \<noteq> []
        then [CHR 0x0A] @ ''Website: '' @ get_or (website data) [] else [])
     @ (if get_or (contact data) [] \<noteq> []
        then [CHR 0x0A] @ ''Contact: '' @ get_or (contact data) [] else [])"

section \<open>Example data\<close>

definition bare_topic :: topic where
  "bare_topic =
     \<lparr>aliases = None, description = None, details = None, website = None, contact = None\<rparr>"

text \<open>
  Two topics: the alias \<open>coffee\<close> of the first is a prefix of the second topic's key.
\<close>

definition coffee_kb :: store where
  "coffee_kb =
     [(''CoffeeShop'', bare_topic\<lparr>aliases := Some [''coffee''],
                                  description := Some ''Best beans in town''\<rparr>),
      (''Coffee Beans'', bare_topic\<lparr>details := Some ''Arabica, roasted weekly''\<rparr>)]"

text \<open>A topic whose key is the empty string, and one with an empty alias after another topic.\<close>

definition empty_key_kb :: store where
  "empty_key_kb = [([], bare_topic\<lparr>description := Some ''Anything''\<rparr>)]"

definition empty_alias_kb :: store where
  "empty_alias_kb =
     [(''Bakery'', bare_topic\<lparr>description := Some []\<rparr>),
      (''Lost and Found'',
       bare_topic\<lparr>aliases := Some [''lost'', []], website := Some ''example.org''\<rparr>)]"

text \<open>A topic whose reply is longer than the chat box.\<close>

definition long_kb :: store where
  "long_kb =
     [(''Museum'', bare_topic\<lparr>
         description := Some (''The museum shows paintings, sculptures and photographs ''
                              @ ''from four centuries and is open every day.''),
         details := Some ''Guided tours start at the main entrance on the hour.'',
         contact := Some ''front desk''\<rparr>)]"

definition example_config :: config where
  "example_config =
     \<lparr>discord_webhook_url = Some (JStr ''https://discord.example/hook''),
      owner_discord_ids = Some (JArr [JStr ''<@12345>'', JStr ''<@67890>'']),
      knowledge_base_file = None\<rparr>"

definition running_globals :: globals where
  "running_globals =
     \<lparr>CONFIG = example_config, knowledge_base = long_kb,
      vrchat_osc_client = Some (SimpleUDPClient ''127.0.0.1'' 9000)\<rparr>"

text \<open>The state when \<^verbatim>\<open>initialize_osc_client\<close> failed, and one with no webhook.\<close>

definition no_client_globals :: globals where
  "no_client_globals = running_globals\<lparr>vrchat_osc_client := None\<rparr>"

definition no_webhook_globals :: globals where
  "no_webhook_globals =
     running_globals\<lparr>CONFIG := example_config\<lparr>discord_webhook_url := Some (JStr [])\<rparr>\<rparr>"

text \<open>Owner ids written as numbers in the configuration file.\<close>

definition numeric_owner_globals :: globals where
  "numeric_owner_globals =
     running_globals\<lparr>CONFIG := example_config\<lparr>owner_discord_ids := Some (JArr [JNum 12345])\<rparr>\<rparr>"

text \<open>A webhook that answers every post with status 500.\<close>

definition failing_transport :: transport where
  "failing_transport url content timeout = Response 500"

text \<open>
  Knowledge files that parse and do not have the documented shape: a topic whose
  \<^verbatim>\<open>aliases\<close> is \<^verbatim>\<open>null\<close>, behind a well-formed topic, and a topic that is a string.
\<close>

definition null_aliases_kb :: json where
  "null_aliases_kb =
     JObj [(''Bakery'', JObj [(''description'', JStr ''Fresh bread'')]),
           (''Museum'', JObj [(''aliases'', JNull)])]"

definition string_topic_kb :: json where
  "string_topic_kb = JObj [(''Bakery'', JStr ''Fresh bread'')]"

text \<open>A stand-in for \<^verbatim>\<open>str\<close> on the values that are not strings.\<close>

definition example_str :: "json \<Rightarrow> string" where
  "example_str v =
     (case v of
        JNull \<Rightarrow> ''None''
      | JBool b \<Rightarrow> (if b then ''True'' else ''False'')
      | JStr s \<Rightarrow> s
      | _ \<Rightarrow> ''?'')"

text \<open>Two states of the knowledge file, before and after it was rewritten.\<close>

definition first_file_kb :: store where
  "first_file_kb = [(''Coffee Shop'', bare_topic\<lparr>description := Some ''Best beans in town''\<rparr>)]"

definition second_file_kb :: store where
  "second_file_kb = [(''Coffee'', bare_topic\<lparr>description := Some ''A hot drink''\<rparr>)]"

definition first_files :: "string \<Rightarrow> file_read" where
  "first_files path =
     (if path = ''knowledge_base.json'' then Loaded first_file_kb else FileNotFoundError)"

definition second_files :: "string \<Rightarrow> file_read" where
  "second_files path =
     (if path = ''knowledge_base.json'' then Loaded second_file_kb else FileNotFoundError)"

section \<open>String primitives and the library's list predicates\<close>

lemma startswith_iff_prefix: "startswith s t \<longleftrightarrow> prefix t s"
  unfolding startswith_def
  by (metis append_eq_conv_conj prefixE take_is_prefix)

lemma endswith_iff_suffix: "endswith s t \<longleftrightarrow> suffix t s"
proof
  assume "endswith s t"
  then have "s = take (length s - length t) s @ t"
    by (metis append_take_drop_id endswith_def)
  then show "suffix t s" by (metis suffixI)
next
  assume "suffix t s"
  then obtain ys where "s = ys @ t" by (auto simp: suffix_def)
  then show "endswith s t" by (simp add: endswith_def)
qed

lemma str_in_iff_sublist: "str_in sub s \<longleftrightarrow> sublist sub s"
  by (induction s) (simp_all add: sublist_Cons_right startswith_iff_prefix)

lemma isspace_lower_char: "isspace (lower_char c) = isspace c"
  by (auto simp: isspace_def lower_char_def Let_def)

lemma lstrip_lower: "lstrip (lower s) = lower (lstrip s)"
proof -
  have "isspace \<circ> lower_char = isspace"
    by (rule ext) (simp add: isspace_lower_char)
  then show ?thesis
    by (simp add: lstrip_def lower_def dropWhile_map)
qed

lemma rstrip_lower: "rstrip (lower s) = lower (rstrip s)"
proof -
  have "isspace \<circ> lower_char = isspace"
    by (rule ext) (simp add: isspace_lower_char)
  then show ?thesis
    by (simp add: rstrip_def lower_def dropWhile_map rev_map)
qed

lemma strip_lower: "strip (lower s) = lower (strip s)"
  by (simp add: strip_def lstrip_lower rstrip_lower)

lemma strip_all_space:
  assumes "list_all isspace s"
  shows "strip s = []"
proof -
  have "lstrip s = []"
    using assms by (simp add: lstrip_def list_all_iff)
  then show ?thesis by (simp add: strip_def rstrip_def)
qed

lemma rstrip_keeps_prefix:
  assumes "p \<noteq> []" and "\<not> isspace (last p)"
  shows "prefix p (rstrip (p @ r))"
proof -
  have keep: "dropWhile isspace (rev p) = rev p"
    using assms by (simp add: dropWhile_eq_self_iff hd_rev)
  show ?thesis
  proof (cases "\<forall>x\<in>set (rev r). isspace x")
    case True
    then have "dropWhile isspace (rev r @ rev p) = rev p"
      using keep by (simp add: dropWhile_append)
    then show ?thesis by (simp add: rstrip_def)
  next
    case False
    then obtain x where "x \<in> set (rev r)" and "\<not> isspace x" by blast
    then have "dropWhile isspace (rev r @ rev p) = dropWhile isspace (rev r) @ rev p"
      by (rule dropWhile_append1)
    then show ?thesis by (simp add: rstrip_def)
  qed
qed

lemma strip_keeps_prefix:
  assumes "p \<noteq> []" and "\<not> isspace (hd p)" and "\<not> isspace (last p)"
  shows "prefix p (strip (p @ r))"
proof -
  have "lstrip (p @ r) = p @ r"
    using assms(1,2) by (cases p) (simp_all add: lstrip_def)
  then show ?thesis
    using rstrip_keeps_prefix [OF assms(1,3)] by (simp add: strip_def)
qed

lemma strip_id:
  assumes "\<not> isspace (hd s)" and "\<not> isspace (last s)"
  shows "strip s = s"
proof (cases s)
  case Nil
  then show ?thesis by (simp add: strip_def lstrip_def rstrip_def)
next
  case (Cons c cs)
  then have l: "lstrip s = s"
    using assms(1) by (simp add: lstrip_def)
  have "dropWhile isspace (rev s) = rev s"
    using assms(2) Cons by (simp add: dropWhile_eq_self_iff hd_rev del: rev.simps)
  then show ?thesis by (simp add: strip_def l rstrip_def)
qed

lemma strip_nonempty:
  assumes "s \<noteq> []" and "\<not> isspace (hd s)"
  shows "strip s \<noteq> []"
proof -
  obtain c cs where s: "s = [c] @ cs" using assms(1) by (cases s) auto
  have "prefix [c] (strip ([c] @ cs))"
    using assms(2) s by (intro strip_keeps_prefix) auto
  then show ?thesis using s by auto
qed

section \<open>The matcher\<close>

lemma trigger_hit_iff:
  "trigger_hit m t \<longleftrightarrow>
     m = t \<or> prefix t m \<or> suffix t m \<or> sublist ('' '' @ t @ '' '') ('' '' @ m @ '' '')"
  unfolding trigger_hit_def str_in_iff_sublist startswith_iff_prefix endswith_iff_suffix
  by blast

lemma topic_matched_iff_spec: "topic_matched m key data \<longleftrightarrow> spec_matched m key data"
  unfolding topic_matched_def spec_matched_def spec_triggers_def triggers_def list_ex_iff
  by (simp add: trigger_hit_iff)

lemma kb_loop_find:
  "kb_loop kb m (r, b) =
     (case List.find (\<lambda>(k, d). topic_matched m k d) kb of
        None \<Rightarrow> (r, b) | Some (k, d) \<Rightarrow> (topic_response k d, True))"
  by (induction kb) auto

lemma kb_loop_first:
  assumes "\<forall>q\<in>set pre. \<not> topic_matched m (fst q) (snd q)" and "topic_matched m k d"
  shows "kb_loop (pre @ (k, d) # post) m (r, b) = (topic_response k d, True)"
  using assms by (induction pre) auto

lemma kb_loop_none:
  assumes "\<forall>q\<in>set kb. \<not> topic_matched m (fst q) (snd q)"
  shows "kb_loop kb m (r, b) = (r, b)"
  using assms by (induction kb) auto

lemma get_ai_response_first:
  assumes "\<forall>q\<in>set pre. \<not> topic_matched (strip (lower message)) (fst q) (snd q)"
    and "topic_matched (strip (lower message)) k d"
  shows "get_ai_response (pre @ (k, d) # post) p message = strip (topic_response k d)"
  using kb_loop_first [OF assms] by (simp add: get_ai_response_def)

lemma topic_response_eq:
  "topic_response k d =
     ''Regarding '' @ k @ '':'' @ [CHR 0x0A]
       @ get_or (description d) ''No description available.'' @ extra_lines d"
  by (simp add: topic_response_def extra_lines_def Let_def)

section \<open>The contract of the AI core\<close>

text \<open>
  C1. For every store and every text, a topic is matched exactly when the text, as the
  matcher normalises it, equals one of the topic's triggers (its lower-cased key or a
  lower-cased alias), starts with one, ends with one, or, padded with a space on each
  side, contains one padded the same way. The loop goes through the store in order and
  stops at the first such topic, so the reply is that of the first matching topic, and
  the fallback reply when there is none.
\<close>

theorem matcher_first_match:
  "(topic_matched text key data \<longleftrightarrow> spec_matched text key data)
   \<and> kb_loop kb text (response, False) =
       (case List.find (\<lambda>(k, d). spec_matched text k d) kb of
          None \<Rightarrow> (response, False)
        | Some (k, d) \<Rightarrow> (topic_response k d, True))
   \<and> get_ai_response kb player_name message =
       strip (case List.find (\<lambda>(k, d). spec_matched (strip (lower message)) k d) kb of
                None \<Rightarrow> fallback_response kb player_name (strip (lower message))
                          (default_response player_name)
              | Some (k, d) \<Rightarrow> topic_response k d)"
proof -
  have same: "(\<lambda>(k, d). topic_matched m k d) = (\<lambda>(k, d). spec_matched m k d)" for m
    by (simp add: topic_matched_iff_spec)
  have loop: "kb_loop kb m (r, False) =
       (case List.find (\<lambda>(k, d). spec_matched m k d) kb of
          None \<Rightarrow> (r, False) | Some (k, d) \<Rightarrow> (topic_response k d, True))" for m r
    by (simp add: kb_loop_find same)
  have "get_ai_response kb player_name message =
       strip (case List.find (\<lambda>(k, d). spec_matched (strip (lower message)) k d) kb of
                None \<Rightarrow> fallback_response kb player_name (strip (lower message))
                          (default_response player_name)
              | Some (k, d) \<Rightarrow> topic_response k d)"
    by (simp add: get_ai_response_def loop split: option.split)
  then show ?thesis
    using loop topic_matched_iff_spec by blast
qed

text \<open>The second topic matches exactly, and the first, matching by a prefix, wins.\<close>

theorem matcher_first_match_witness:
  "spec_matched ''coffee beans'' ''Coffee Beans'' (snd (coffee_kb ! 1))
   \<and> get_ai_response coffee_kb ''Alex'' ''  Coffee Beans '' =
       ''Regarding CoffeeShop:'' @ [CHR 0x0A] @ ''Best beans in town''"
proof -
  have a: "topic_matched ''coffee beans'' ''Coffee Beans'' (snd (coffee_kb ! 1))"
    by code_simp
  have b: "get_ai_response coffee_kb ''Alex'' ''  Coffee Beans '' =
       ''Regarding CoffeeShop:'' @ [CHR 0x0A] @ ''Best beans in town''"
    by code_simp
  show ?thesis
    using a b matcher_first_match [of "''coffee beans''" "''Coffee Beans''" "snd (coffee_kb ! 1)"]
    by blast
qed

lemma regarding_shape:
  "''Regarding '' @ K @ '':'' \<noteq> []
   \<and> \<not> isspace (hd (''Regarding '' @ K @ '':''))
   \<and> \<not> isspace (last (''Regarding '' @ K @ '':''))"
  by (simp add: isspace_def)

lemma strip_topic_response_prefix:
  "prefix (''Regarding '' @ K @ '':'') (strip (topic_response K d))"
proof -
  have "topic_response K d =
      (''Regarding '' @ K @ '':'')
        @ ([CHR 0x0A] @ get_or (description d) ''No description available.'' @ extra_lines d)"
    by (simp add: topic_response_eq)
  then show ?thesis
    using strip_keeps_prefix [of "''Regarding '' @ K @ '':''"] regarding_shape [of K]
    by metis
qed

lemma self_trigger: "strip K = K \<Longrightarrow> topic_matched (strip (lower K)) K d"
  by (simp add: strip_lower topic_matched_def triggers_def trigger_hit_def)

text \<open>
  C2 as stated, every key of the store answered with its own \<open>Regarding\<close> line, fails
  where an earlier topic matches the key's text first: the alias \<open>coffee\<close> of the first
  topic is a prefix of the second topic's key.
\<close>

theorem respond_key_counterexample:
  "''Coffee Beans'' \<in> set (map fst coffee_kb)
   \<and> \<not> sublist ''Regarding Coffee Beans:'' (get_ai_response coffee_kb ''Alex'' ''Coffee Beans'')"
  by code_simp

text \<open>
  C2, amended. For a topic key \<open>K\<close> of the store that has no whitespace at its ends, and
  when no topic earlier in the store matches the text \<open>K\<close>, the reply to \<open>K\<close> from any
  speaker starts with, and so contains, \<open>Regarding K:\<close>.
\<close>

theorem respond_key:
  assumes "strip K = K"
    and "\<forall>q\<in>set pre. \<not> topic_matched (strip (lower K)) (fst q) (snd q)"
  shows "prefix (''Regarding '' @ K @ '':'') (get_ai_response (pre @ (K, d) # post) speaker K)
         \<and> sublist (''Regarding '' @ K @ '':'') (get_ai_response (pre @ (K, d) # post) speaker K)"
proof -
  have "get_ai_response (pre @ (K, d) # post) speaker K = strip (topic_response K d)"
    using assms(2) self_trigger [OF assms(1)] by (rule get_ai_response_first)
  then show ?thesis
    using strip_topic_response_prefix [of K d] by auto
qed

theorem respond_key_witness:
  "sublist ''Regarding Coffee Beans:''
     (get_ai_response ([(''Tea'', bare_topic)] @ (''Coffee Beans'', bare_topic) # [])
        ''Alex'' ''Coffee Beans'')"
proof -
  have a: "strip ''Coffee Beans'' = ''Coffee Beans''"
    by code_simp
  have b: "\<forall>q\<in>set [(''Tea'', bare_topic)].
             \<not> topic_matched (strip (lower ''Coffee Beans'')) (fst q) (snd q)"
    by code_simp
  show ?thesis
    using respond_key [OF a b, of bare_topic "[]" "''Alex''"] by simp
qed

lemma hd_fallback:
  "fallback_response kb p m (default_response p) \<noteq> []
   \<and> \<not> isspace (hd (fallback_response kb p m (default_response p)))"
  by (simp add: fallback_response_def default_response_def isspace_def Let_def)

lemma respond_nonempty: "get_ai_response kb player_name message \<noteq> []"
proof (cases "List.find (\<lambda>(k, d). topic_matched (strip (lower message)) k d) kb")
  case None
  then have "get_ai_response kb player_name message =
      strip (fallback_response kb player_name (strip (lower message))
               (default_response player_name))"
    by (simp add: get_ai_response_def kb_loop_find)
  then show ?thesis
    using hd_fallback strip_nonempty by metis
next
  case (Some q)
  obtain k d where q: "q = (k, d)" by (cases q)
  have "get_ai_response kb player_name message = strip (topic_response k d)"
    using Some q by (simp add: get_ai_response_def kb_loop_find)
  then show ?thesis
    using strip_topic_response_prefix [of k d] by auto
qed

lemma trigger_hit_empty_text: "trigger_hit [] t \<longleftrightarrow> t = []"
proof
  assume "trigger_hit [] t"
  then have "prefix t [] \<or> suffix t [] \<or> sublist ('' '' @ t @ '' '') ('' '' @ [] @ '' '') \<or> [] = t"
    by (auto simp: trigger_hit_iff)
  then show "t = []"
    by (auto dest: sublist_length_le)
next
  assume "t = []"
  then show "trigger_hit [] t" by (simp add: trigger_hit_def)
qed

lemma no_match_empty_text:
  assumes "k \<noteq> []" and "[] \<notin> set (get_or (aliases d) [])"
  shows "\<not> topic_matched [] k d"
  using assms
  by (auto simp: topic_matched_def triggers_def list_ex_iff trigger_hit_empty_text lower_def)

lemma strip_default_response: "strip (default_response p) = default_response p"
  by (rule strip_id) (simp_all add: default_response_def isspace_def)

lemma fallback_empty_text: "fallback_response kb p [] r = r"
  by (simp add: fallback_response_def)

text \<open>
  C5 as stated fails for a store with an empty trigger: the empty and the blank text
  match the topic whose key is the empty string.
\<close>

theorem respond_blank_counterexample:
  "snd (kb_loop empty_key_kb (strip (lower [])) (default_response ''Alex'', False))
   \<and> get_ai_response empty_key_kb ''Alex'' [] \<noteq> default_response ''Alex''
   \<and> get_ai_response empty_key_kb ''Alex'' ''   '' = ''Regarding :'' @ [CHR 0x0A] @ ''Anything''"
  by code_simp

text \<open>
  C5, amended. When no topic of the store has an empty key or an empty alias, the empty
  text and every text of whitespace only match no topic, and the reply is the generic
  one that names the speaker.
\<close>

theorem respond_blank:
  assumes "list_all isspace message"
    and "\<forall>q\<in>set kb. fst q \<noteq> [] \<and> [] \<notin> set (get_or (aliases (snd q)) [])"
  shows "kb_loop kb (strip (lower message)) (response, False) = (response, False)
         \<and> get_ai_response kb speaker message = default_response speaker"
proof -
  have "strip message = []"
    using assms(1) by (rule strip_all_space)
  then have "strip (lower message) = lower []"
    by (simp add: strip_lower)
  then have blank: "strip (lower message) = []"
    by (simp add: lower_def)
  have none: "\<forall>q\<in>set kb. \<not> topic_matched [] (fst q) (snd q)"
    using assms(2) no_match_empty_text by blast
  have loop: "kb_loop kb [] (r, False) = (r, False)" for r
    using none by (rule kb_loop_none)
  have "get_ai_response kb speaker message = strip (default_response speaker)"
    by (simp add: get_ai_response_def blank loop fallback_empty_text)
  then show ?thesis
    using blank loop strip_default_response by simp
qed

theorem respond_blank_witness:
  "get_ai_response coffee_kb ''Alex'' [CHR '' '', CHR 0x09, CHR 0x0A] =
     ''Sorry Alex, I didn't quite catch that. You can ask me about the businesses or topics I know.''"
proof -
  have a: "list_all isspace [CHR '' '', CHR 0x09, CHR 0x0A]"
    by code_simp
  have b: "\<forall>q\<in>set coffee_kb. fst q \<noteq> [] \<and> [] \<notin> set (get_or (aliases (snd q)) [])"
    by code_simp
  show ?thesis
    using respond_blank [OF a b, of "[]" "''Alex''"] by (simp add: default_response_def)
qed

lemma empty_trigger_hit: "trigger_hit m []"
  by (simp add: trigger_hit_def startswith_def)

text \<open>
  C9. A topic with an empty key or an empty alias is matched by every text, and the
  reply to any message is that topic's reply unless a topic earlier in the store
  matches the message.
\<close>

theorem empty_trigger_matches_all:
  assumes "k = [] \<or> [] \<in> set (get_or (aliases d) [])"
    and "\<forall>q\<in>set pre. \<not> topic_matched (strip (lower message)) (fst q) (snd q)"
  shows "topic_matched text k d
         \<and> get_ai_response (pre @ (k, d) # post) speaker message = strip (topic_response k d)"
proof -
  have "[] \<in> set (triggers k d)"
    using assms(1) by (auto simp: triggers_def lower_def)
  then have m: "topic_matched t k d" for t
    using empty_trigger_hit by (auto simp: topic_matched_def list_ex_iff)
  then show ?thesis
    using get_ai_response_first [OF assms(2) m] by simp
qed

theorem empty_trigger_matches_all_witness:
  "topic_matched ''zebra'' (fst (empty_alias_kb ! 1)) (snd (empty_alias_kb ! 1))
   \<and> get_ai_response empty_alias_kb ''Alex'' ''How are you?'' =
       ''Regarding Lost and Found:'' @ [CHR 0x0A] @ ''No description available.''
         @ [CHR 0x0A] @ ''Website: example.org''"
proof -
  have a: "fst (empty_alias_kb ! 1) = [] \<or> [] \<in> set (get_or (aliases (snd (empty_alias_kb ! 1))) [])"
    by code_simp
  have b: "\<forall>q\<in>set [empty_alias_kb ! 0].
             \<not> topic_matched (strip (lower ''How are you?'')) (fst q) (snd q)"
    by code_simp
  have c: "[empty_alias_kb ! 0] @ (fst (empty_alias_kb ! 1), snd (empty_alias_kb ! 1)) # [] = empty_alias_kb"
    by code_simp
  have d: "strip (topic_response (fst (empty_alias_kb ! 1)) (snd (empty_alias_kb ! 1))) =
       ''Regarding Lost and Found:'' @ [CHR 0x0A] @ ''No description available.''
         @ [CHR 0x0A] @ ''Website: example.org''"
    by code_simp
  show ?thesis
    using empty_trigger_matches_all [OF a b, of "''zebra''" "[]" "''Alex''"] c d by simp
qed

text \<open>
  C10. For the topic that a message matches first: when the topic has no
  \<open>description\<close> field the reply carries \<open>No description available.\<close> after the
  \<open>Regarding\<close> line; when the field is present and empty, nothing stands between the
  \<open>Regarding\<close> line and the lines of the other fields.
\<close>

theorem description_placeholder:
  assumes "\<forall>q\<in>set pre. \<not> topic_matched (strip (lower message)) (fst q) (snd q)"
    and "topic_matched (strip (lower message)) k d"
  shows "(description d = None \<longrightarrow>
            get_ai_response (pre @ (k, d) # post) speaker message =
              strip (''Regarding '' @ k @ '':'' @ [CHR 0x0A] @ ''No description available.''
                       @ extra_lines d))
         \<and> (description d = Some [] \<longrightarrow>
            get_ai_response (pre @ (k, d) # post) speaker message =
              strip (''Regarding '' @ k @ '':'' @ [CHR 0x0A] @ extra_lines d))"
  using get_ai_response_first [OF assms]
  by (simp add: topic_response_eq get_or_def)

theorem description_placeholder_witness:
  "get_ai_response empty_alias_kb ''Alex'' ''lost'' =
       ''Regarding Lost and Found:'' @ [CHR 0x0A] @ ''No description available.''
         @ [CHR 0x0A] @ ''Website: example.org''
   \<and> get_ai_response empty_alias_kb ''Alex'' ''the bakery'' = ''Regarding Bakery:''"
proof -
  have a1: "\<forall>q\<in>set [empty_alias_kb ! 0].
              \<not> topic_matched (strip (lower ''lost'')) (fst q) (snd q)"
    by code_simp
  have a2: "topic_matched (strip (lower ''lost'')) ''Lost and Found'' (snd (empty_alias_kb ! 1))"
    by code_simp
  have a3: "description (snd (empty_alias_kb ! 1)) = None"
    by code_simp
  have a4: "[empty_alias_kb ! 0] @ (''Lost and Found'', snd (empty_alias_kb ! 1)) # [] = empty_alias_kb"
    by code_simp
  have a5: "strip (''Regarding '' @ ''Lost and Found'' @ '':'' @ [CHR 0x0A]
                @ ''No description available.'' @ extra_lines (snd (empty_alias_kb ! 1))) =
       ''Regarding Lost and Found:'' @ [CHR 0x0A] @ ''No description available.''
         @ [CHR 0x0A] @ ''Website: example.org''"
    by code_simp
  have b1: "\<forall>q\<in>set ([] :: store).
              \<not> topic_matched (strip (lower ''the bakery'')) (fst q) (snd q)"
    by simp
  have b2: "topic_matched (strip (lower ''the bakery'')) ''Bakery'' (snd (empty_alias_kb ! 0))"
    by code_simp
  have b3: "description (snd (empty_alias_kb ! 0)) = Some []"
    by code_simp
  have b4: "[] @ (''Bakery'', snd (empty_alias_kb ! 0)) # [empty_alias_kb ! 1] = empty_alias_kb"
    by code_simp
  have b5: "strip (''Regarding '' @ ''Bakery'' @ '':'' @ [CHR 0x0A]
                @ extra_lines (snd (empty_alias_kb ! 0))) = ''Regarding Bakery:''"
    by code_simp
  show ?thesis
    using description_placeholder [OF a1 a2, of "[]" "''Alex''"]
      description_placeholder [OF b1 b2, of "[empty_alias_kb ! 1]" "''Alex''"]
      a3 a4 a5 b3 b4 b5
    by simp
qed

section \<open>The contract of the AI core over the store as it was loaded\<close>

lemma strings_of_map_JStr: "strings_of (map JStr ss) = Some ss"
  by (induction ss) simp_all

lemma raw_triggers_ok:
  assumes "aliases_ok data"
  shows "\<exists>found. raw_triggers key data = Inr found"
  using assms
  by (auto simp: aliases_ok_def raw_triggers_def raw_aliases_def dict_get_def
      split: json.splits option.splits)

lemma raw_kb_loop_ok:
  assumes "list_all (\<lambda>(key, data). aliases_ok data) entries"
  shows "\<exists>out. raw_kb_loop str_of entries m (r, b) = Inr out"
  using assms
proof (induction entries)
  case Nil
  then show ?case by simp
next
  case (Cons e entries)
  obtain key data where e: "e = (key, data)" by (cases e)
  from Cons.prems e have ok: "aliases_ok data" by simp
  then obtain found where f: "raw_triggers key data = Inr found"
    using raw_triggers_ok by blast
  from ok obtain fs where d: "data = JObj fs"
    by (auto simp: aliases_ok_def split: json.splits)
  show ?case
    using Cons e f d by (cases "list_ex (trigger_hit m) found") auto
qed

lemma raw_topic_response_eq:
  "\<exists>rest. raw_topic_response str_of key entries = (''Regarding '' @ key @ '':'') @ rest"
  by (simp add: raw_topic_response_def Let_def)

lemma strip_raw_topic_response: "strip (raw_topic_response str_of key entries) \<noteq> []"
proof -
  obtain rest where "raw_topic_response str_of key entries = (''Regarding '' @ key @ '':'') @ rest"
    using raw_topic_response_eq by blast
  then have "prefix (''Regarding '' @ key @ '':'') (strip (raw_topic_response str_of key entries))"
    using strip_keeps_prefix [of "''Regarding '' @ key @ '':''"] regarding_shape [of key]
    by metis
  then show ?thesis by auto
qed

lemma raw_kb_loop_shape:
  assumes "raw_kb_loop str_of entries m (r, False) = Inr (r', b)"
  shows "(b \<and> (\<exists>key fs. r' = raw_topic_response str_of key fs)) \<or> (\<not> b \<and> r' = r)"
  using assms
proof (induction entries)
  case Nil
  then show ?case by simp
next
  case (Cons e entries)
  obtain key data where e: "e = (key, data)" by (cases e)
  show ?case
    using Cons e by (auto split: sum.splits if_splits json.splits)
qed

lemma raw_fallback_eq:
  "raw_fallback_response (map fst kb) p m r = fallback_response kb p m r"
  by (simp add: raw_fallback_response_def fallback_response_def)

lemma hd_raw_fallback:
  "raw_fallback_response keys p m (default_response p) \<noteq> []
   \<and> \<not> isspace (hd (raw_fallback_response keys p m (default_response p)))"
  by (simp add: raw_fallback_response_def default_response_def isspace_def Let_def)

lemma raw_reply_nonempty:
  assumes "get_ai_response_raw str_of kb speaker message = Inr reply"
  shows "reply \<noteq> []"
proof -
  from assms obtain entries where kb: "kb = JObj entries"
    by (cases kb) (simp_all add: get_ai_response_raw_def Let_def)
  from assms kb obtain r b where
    loop: "raw_kb_loop str_of entries (strip (lower message)) (default_response speaker, False) = Inr (r, b)"
    and reply: "reply = strip (if \<not> b
          then raw_fallback_response (map fst entries) speaker (strip (lower message)) r else r)"
    by (auto simp: get_ai_response_raw_def Let_def split: sum.splits)
  from raw_kb_loop_shape [OF loop] show ?thesis
  proof
    assume "b \<and> (\<exists>key fs. r = raw_topic_response str_of key fs)"
    then show ?thesis using reply strip_raw_topic_response by auto
  next
    assume "\<not> b \<and> r = default_response speaker"
    then show ?thesis
      using reply hd_raw_fallback strip_nonempty by (metis (full_types))
  qed
qed

lemma map_of_opt_field: "map_of (opt_field name v) key = (if key = name then v else None)"
  by (cases v) (simp_all add: opt_field_def)

lemma json_of_topic_entries: "json_of_topic d = JObj (topic_entries d)"
  by (simp add: json_of_topic_def)

lemma lookup_aliases:
  "map_of (topic_entries d) ''aliases'' = map_option (\<lambda>xs. JArr (map JStr xs)) (aliases d)"
  by (simp add: topic_entries_def map_of_opt_field map_add_def split: option.split)

lemma lookup_description:
  "dict_get (topic_entries d) ''description'' (JStr dflt) = JStr (get_or (description d) dflt)"
  by (simp add: topic_entries_def dict_get_def map_of_opt_field map_add_def get_or_def
      split: option.split)

lemma lookup_details:
  "dict_get (topic_entries d) ''details'' (JStr dflt) = JStr (get_or (details d) dflt)"
  by (simp add: topic_entries_def dict_get_def map_of_opt_field map_add_def get_or_def
      split: option.split)

lemma lookup_website:
  "dict_get (topic_entries d) ''website'' (JStr dflt) = JStr (get_or (website d) dflt)"
  by (simp add: topic_entries_def dict_get_def map_of_opt_field map_add_def get_or_def
      split: option.split)

lemma lookup_contact:
  "dict_get (topic_entries d) ''contact'' (JStr dflt) = JStr (get_or (contact d) dflt)"
  by (simp add: topic_entries_def dict_get_def map_of_opt_field map_add_def get_or_def
      split: option.split)

lemma raw_triggers_typed: "raw_triggers key (json_of_topic d) = Inr (triggers key d)"
  by (cases "aliases d")
    (simp_all add: raw_triggers_def json_of_topic_entries dict_get_def lookup_aliases
      raw_aliases_def triggers_def get_or_def strings_of_map_JStr)

lemma raw_topic_response_typed:
  "raw_topic_response str_of key (topic_entries d) = topic_response key d"
  by (simp add: raw_topic_response_def topic_response_def lookup_description lookup_details
      lookup_website lookup_contact py_truthy_def py_format_def Let_def)

lemma raw_kb_loop_typed:
  "raw_kb_loop str_of (map (\<lambda>(key, data). (key, json_of_topic data)) kb) m (r, b) =
     Inr (kb_loop kb m (r, b))"
proof (induction kb)
  case Nil
  then show ?case by simp
next
  case (Cons e kb)
  obtain key d where e: "e = (key, d)" by (cases e)
  show ?case
    using Cons raw_triggers_typed [of key d]
    by (simp add: e topic_matched_def json_of_topic_entries raw_topic_response_typed)
qed

text \<open>
  On a store of the knowledge file format the function over the loaded value returns,
  and returns what \<^const>\<open>get_ai_response\<close> computes on the typed store.
\<close>

lemma get_ai_response_raw_typed:
  "get_ai_response_raw str_of (json_of_store kb) speaker message =
     Inr (get_ai_response kb speaker message)"
proof -
  have keys: "map (fst \<circ> (\<lambda>(key, data). (key, json_of_topic data))) kb = map fst kb"
    by (induction kb) auto
  obtain r b where loop: "kb_loop kb (strip (lower message)) (default_response speaker, False) = (r, b)"
    by (cases "kb_loop kb (strip (lower message)) (default_response speaker, False)")
  show ?thesis
    by (simp add: get_ai_response_raw_def get_ai_response_def json_of_store_def
        raw_kb_loop_typed keys raw_fallback_eq loop Let_def)
qed

lemma well_formed_json_of_store: "well_formed_store (json_of_store kb)"
proof -
  have "aliases_ok (json_of_topic d)" for d
    by (cases "aliases d")
      (simp_all add: aliases_ok_def json_of_topic_entries lookup_aliases strings_of_map_JStr)
  then show ?thesis
    by (induction kb) (auto simp: well_formed_store_def json_of_store_def)
qed

text \<open>
  C4 as stated, no exception for every store state, fails on stores that the loader
  keeps and the loop cannot read: a topic whose \<^verbatim>\<open>aliases\<close> is \<^verbatim>\<open>null\<close> cannot be
  iterated, a topic that is a string has no \<^verbatim>\<open>get\<close>, and a top level that is an array
  has no \<^verbatim>\<open>items\<close>.
\<close>

theorem respond_raises_counterexample:
  "\<not> well_formed_store null_aliases_kb
   \<and> get_ai_response_raw example_str null_aliases_kb ''Alex'' ''hello'' = Inl TypeError
   \<and> get_ai_response_raw example_str string_topic_kb ''Alex'' ''hello'' = Inl AttributeError
   \<and> get_ai_response_raw example_str (JArr []) ''Alex'' ''hello'' = Inl AttributeError"
  by code_simp

text \<open>
  C4, amended. On every store state of the loadable shape (the top level an object,
  every topic an object, \<^verbatim>\<open>aliases\<close> an array of strings where a topic has it), for
  every speaker and every text, the AI core raises no exception and returns a string
  that is not empty. On every store state whatever, a reply that is returned is not
  empty.
\<close>

theorem respond_total_well_formed:
  "(well_formed_store kb \<longrightarrow>
      (\<exists>reply. get_ai_response_raw str_of kb speaker message = Inr reply \<and> reply \<noteq> []))
   \<and> (\<forall>reply. get_ai_response_raw str_of kb speaker message = Inr reply \<longrightarrow> reply \<noteq> [])"
proof -
  have "\<exists>reply. get_ai_response_raw str_of kb speaker message = Inr reply"
    if wf: "well_formed_store kb"
  proof -
    from wf obtain entries where kb: "kb = JObj entries"
      and ok: "list_all (\<lambda>(key, data). aliases_ok data) entries"
      by (cases kb) (simp_all add: well_formed_store_def)
    obtain out where
      "raw_kb_loop str_of entries (strip (lower message)) (default_response speaker, False) = Inr out"
      using raw_kb_loop_ok [OF ok] by blast
    then show ?thesis
      by (cases out) (simp add: kb get_ai_response_raw_def Let_def)
  qed
  then show ?thesis
    using raw_reply_nonempty by blast
qed

theorem respond_total_well_formed_witness:
  "well_formed_store (json_of_store coffee_kb)
   \<and> get_ai_response_raw example_str (json_of_store coffee_kb) ''Alex'' ''Any coffee today'' =
       Inr (''Regarding CoffeeShop:'' @ [CHR 0x0A] @ ''Best beans in town'')
   \<and> get_ai_response_raw example_str null_aliases_kb ''Alex'' ''the bakery'' =
       Inr (''Regarding Bakery:'' @ [CHR 0x0A] @ ''Fresh bread'')"
proof -
  have a: "well_formed_store (json_of_store coffee_kb)"
    by code_simp
  have b: "get_ai_response_raw example_str (json_of_store coffee_kb) ''Alex'' ''Any coffee today'' =
       Inr (''Regarding CoffeeShop:'' @ [CHR 0x0A] @ ''Best beans in town'')"
    by code_simp
  have c: "get_ai_response_raw example_str null_aliases_kb ''Alex'' ''the bakery'' =
       Inr (''Regarding Bakery:'' @ [CHR 0x0A] @ ''Fresh bread'')"
    by code_simp
  show ?thesis
    using a b c
      respond_total_well_formed [of "json_of_store coffee_kb" example_str "''Alex''" "''Any coffee today''"]
    by simp
qed

section \<open>The contract of the chat handler\<close>

lemma handle_chat_valid:
  assumes "strip s \<noteq> []"
  shows "handle_chat_message g p i (OscStr s) =
     GetAiResponse p (strip s)
       # send_osc_to_vrchat g ''/avatar/parameters/Chatbox''
           [OscBool True,
            OscStr (if 144 < length (get_ai_response (knowledge_base g) p (strip s))
                    then take 141 (get_ai_response (knowledge_base g) p (strip s)) @ ''...''
                    else get_ai_response (knowledge_base g) p (strip s))]"
  using assms by (simp add: handle_chat_message_def Let_def)

lemma handle_chat_invalid:
  assumes "\<not> valid_chat message"
  shows "handle_chat_message g p i message = []"
  using assms by (cases message) (simp_all add: handle_chat_message_def valid_chat_def)

text \<open>
  C3. For a chat message that the handler accepts, with the OSC client initialised, one
  message goes out to the chat box address, carrying \<open>True\<close> and a string: when the
  reply of the AI core is longer than 144 characters the string is the first 141
  characters of the reply followed by three dots, 144 characters in all; otherwise it is
  the reply, unchanged.
\<close>

theorem chat_reply_truncated:
  assumes "strip s \<noteq> []" and "vrchat_osc_client g = Some client"
  shows "\<exists>out. sent_messages (handle_chat_message g p i (OscStr s)) =
                 [SendMessage ''/avatar/parameters/Chatbox'' [OscBool True, OscStr out]]
           \<and> (if 144 < length (get_ai_response (knowledge_base g) p (strip s))
               then out = take 141 (get_ai_response (knowledge_base g) p (strip s)) @ ''...''
                    \<and> length out = 144
               else out = get_ai_response (knowledge_base g) p (strip s))"
  using assms(2)
  by (simp add: handle_chat_valid [OF assms(1)] send_osc_to_vrchat_def sent_messages_def)

theorem chat_reply_truncated_witness:
  "sent_messages (handle_chat_message running_globals ''Alex'' ''usr_1'' (OscStr ''  museum '')) =
     [SendMessage ''/avatar/parameters/Chatbox''
        [OscBool True,
         OscStr (''Regarding Museum:'' @ [CHR 0x0A]
                 @ ''The museum shows paintings, sculptures and photographs ''
                 @ ''from four centuries and is open every day.'' @ [CHR 0x0A]
                 @ ''More Info: Guided tours s...'')]]
   \<and> length (get_ai_response (knowledge_base running_globals) ''Alex'' (strip ''  museum '')) = 199"
proof -
  have a: "strip ''  museum '' \<noteq> []"
    by code_simp
  have b: "vrchat_osc_client running_globals = Some (SimpleUDPClient ''127.0.0.1'' 9000)"
    by code_simp
  have c: "get_ai_response (knowledge_base running_globals) ''Alex'' (strip ''  museum '') =
      ''Regarding Museum:'' @ [CHR 0x0A]
        @ ''The museum shows paintings, sculptures and photographs ''
        @ ''from four centuries and is open every day.'' @ [CHR 0x0A]
        @ ''More Info: Guided tours start at the main entrance on the hour.'' @ [CHR 0x0A]
        @ ''Contact: front desk''"
    by code_simp
  show ?thesis
    using chat_reply_truncated [OF a b, of "''Alex''" "''usr_1''"] unfolding c by simp
qed

text \<open>
  C6 as stated, one outbound message for every accepted chat message, fails when
  \<^verbatim>\<open>vrchat_osc_client\<close> is \<^const>\<open>None\<close>: \<^const>\<open>send_osc_to_vrchat\<close> returns before
  sending.
\<close>

theorem chat_outbound_counterexample:
  "valid_chat (OscStr ''hi'')
   \<and> sent_messages (handle_chat_message no_client_globals ''Alex'' ''usr_1'' (OscStr ''hi'')) = []"
  by code_simp

text \<open>
  C6, amended. For a chat message whose message argument is not a string, or is empty
  after trimming, the handler does nothing: the AI core is not called and nothing is
  sent. For every other chat message the AI core is called once, and one outbound
  message is sent when the OSC client is initialised, none when it is not.
\<close>

theorem chat_outbound:
  "(\<not> valid_chat message \<longrightarrow> handle_chat_message g p i message = [])
   \<and> (valid_chat message \<longrightarrow>
        length (ai_calls (handle_chat_message g p i message)) = 1
        \<and> length (sent_messages (handle_chat_message g p i message)) =
            (case vrchat_osc_client g of None \<Rightarrow> 0 | Some client \<Rightarrow> 1))"
proof (cases "valid_chat message")
  case False
  then show ?thesis by (simp add: handle_chat_invalid)
next
  case True
  then obtain s where s: "message = OscStr s" "strip s \<noteq> []"
    by (cases message) (simp_all add: valid_chat_def)
  show ?thesis
    using True
    by (simp add: s handle_chat_valid send_osc_to_vrchat_def sent_messages_def ai_calls_def
        split: option.split)
qed

theorem chat_outbound_witness:
  "handle_chat_message running_globals ''Alex'' ''usr_1'' (OscInt 7) = []
   \<and> handle_chat_message running_globals ''Alex'' ''usr_1'' (OscStr ''   '') = []
   \<and> length (ai_calls (handle_chat_message running_globals ''Alex'' ''usr_1'' (OscStr ''hi''))) = 1
   \<and> length (sent_messages (handle_chat_message running_globals ''Alex'' ''usr_1'' (OscStr ''hi''))) = 1
   \<and> length (sent_messages (handle_chat_message no_client_globals ''Alex'' ''usr_1'' (OscStr ''hi''))) = 0"
proof -
  have a: "\<not> valid_chat (OscInt 7)" "\<not> valid_chat (OscStr ''   '')" "valid_chat (OscStr ''hi'')"
    by code_simp+
  have b: "vrchat_osc_client running_globals = Some (SimpleUDPClient ''127.0.0.1'' 9000)"
      "vrchat_osc_client no_client_globals = None"
    by code_simp+
  show ?thesis
    using a b chat_outbound [of "OscInt 7" running_globals "''Alex''" "''usr_1''"]
      chat_outbound [of "OscStr ''   ''" running_globals "''Alex''" "''usr_1''"]
      chat_outbound [of "OscStr ''hi''" running_globals "''Alex''" "''usr_1''"]
      chat_outbound [of "OscStr ''hi''" no_client_globals "''Alex''" "''usr_1''"]
    by simp
qed

section \<open>The contract of the notification manager\<close>

lemma join_json_strings: "join_json sep (JArr (map JStr ids)) = Inr (join sep ids)"
  by (simp add: join_json_def strings_of_map_JStr)

lemma owner_pings_strings:
  "(if py_truthy (JArr (map JStr ids)) then join_json sep (JArr (map JStr ids)) else Inr [])
     = Inr (join sep ids)"
  by (cases "ids = []") (simp_all add: py_truthy_def join_json_strings)

text \<open>
  C7 as stated, never an exception and one post whenever a URL is configured, fails
  when the configured owner ids are not strings: the join of the owner ids stands
  before the \<^verbatim>\<open>try\<close>, its \<^verbatim>\<open>TypeError\<close> leaves the function, and nothing is posted.
\<close>

theorem notify_counterexample:
  "py_truthy (get_or (discord_webhook_url (CONFIG numeric_owner_globals)) JNull)
   \<and> send_discord_notification failing_transport numeric_owner_globals ''Bell rang''
       = (Inl TypeError, [])"
  by code_simp

text \<open>
  C7, amended. With no webhook URL configured (the key is missing or its value is
  empty) the notification makes no post and returns. With a URL configured and the
  owner ids a list of strings, possibly empty, it makes exactly one post, to that URL
  and with timeout 10, whose content is the owner ids joined by single spaces, a
  newline and the message, trimmed; whatever the transport does (any status, also 400
  to 599, a request exception, any other exception) the function returns normally.
\<close>

theorem notify_contract:
  "(\<not> py_truthy (get_or (discord_webhook_url (CONFIG g)) JNull) \<longrightarrow>
      send_discord_notification post g message = (Inr Skipped, []))
   \<and> (py_truthy (get_or (discord_webhook_url (CONFIG g)) JNull)
       \<and> get_or (owner_discord_ids (CONFIG g)) (JArr []) = JArr (map JStr ids) \<longrightarrow>
        send_discord_notification post g message =
          (let url = get_or (discord_webhook_url (CONFIG g)) JNull;
               content = strip (join '' '' ids @ [CHR 0x0A] @ message)
           in (Inr (case post url content 10 of
                      Response status \<Rightarrow>
                        if 400 \<le> status \<and> status < 600 then RequestFailed else Delivered
                    | RaisesRequestException \<Rightarrow> RequestFailed
                    | RaisesOther \<Rightarrow> UnexpectedFailure),
               [Post url content 10])))"
proof (intro conjI impI)
  assume "\<not> py_truthy (get_or (discord_webhook_url (CONFIG g)) JNull)"
  then show "send_discord_notification post g message = (Inr Skipped, [])"
    by (simp add: send_discord_notification_def Let_def)
next
  assume a: "py_truthy (get_or (discord_webhook_url (CONFIG g)) JNull)
       \<and> get_or (owner_discord_ids (CONFIG g)) (JArr []) = JArr (map JStr ids)"
  show "send_discord_notification post g message =
          (let url = get_or (discord_webhook_url (CONFIG g)) JNull;
               content = strip (join '' '' ids @ [CHR 0x0A] @ message)
           in (Inr (case post url content 10 of
                      Response status \<Rightarrow>
                        if 400 \<le> status \<and> status < 600 then RequestFailed else Delivered
                    | RaisesRequestException \<Rightarrow> RequestFailed
                    | RaisesOther \<Rightarrow> UnexpectedFailure),
               [Post url content 10]))"
    using a
    by (simp add: send_discord_notification_def Let_def owner_pings_strings post_and_check_def
        requests_post_def raise_for_status_def except_clauses_def split: http_result.split)
qed

theorem notify_contract_witness:
  "send_discord_notification failing_transport no_webhook_globals ''Bell'' = (Inr Skipped, [])
   \<and> send_discord_notification failing_transport running_globals ''  Bell rang  '' =
       (Inr RequestFailed,
        [Post (JStr ''https://discord.example/hook'')
           (''<@12345> <@67890>'' @ [CHR 0x0A] @ ''  Bell rang'') 10])"
proof -
  have a: "\<not> py_truthy (get_or (discord_webhook_url (CONFIG no_webhook_globals)) JNull)"
    by code_simp
  have b: "py_truthy (get_or (discord_webhook_url (CONFIG running_globals)) JNull)
       \<and> get_or (owner_discord_ids (CONFIG running_globals)) (JArr [])
           = JArr (map JStr [''<@12345>'', ''<@67890>''])"
    by code_simp
  have c: "(let url = get_or (discord_webhook_url (CONFIG running_globals)) JNull;
               content = strip (join '' '' [''<@12345>'', ''<@67890>''] @ [CHR 0x0A] @ ''  Bell rang  '')
           in (Inr (case failing_transport url content 10 of
                      Response status \<Rightarrow>
                        if 400 \<le> status \<and> status < 600 then RequestFailed else Delivered
                    | RaisesRequestException \<Rightarrow> RequestFailed
                    | RaisesOther \<Rightarrow> UnexpectedFailure),
               [Post url content 10]))
        = (Inr RequestFailed :: exn + notify_outcome,
           [Post (JStr ''https://discord.example/hook'')
              (''<@12345> <@67890>'' @ [CHR 0x0A] @ ''  Bell rang'') 10])"
    by code_simp
  show ?thesis
    using a b c
      notify_contract [where g = no_webhook_globals and post = failing_transport
        and message = "''Bell''"]
      notify_contract [where g = running_globals and ids = "[''<@12345>'', ''<@67890>'']"
        and post = failing_transport and message = "''  Bell rang  ''"]
    by simp
qed

section \<open>Reloading the knowledge base\<close>

text \<open>
  C8 as stated, a trigger of the first load only never matching after the second load,
  fails where a trigger of the second file is a part of it: \<open>coffee shop\<close> is a trigger
  of the first file only, and after the second load the text still matches, through the
  second file's trigger \<open>coffee\<close>.
\<close>

theorem reload_counterexample:
  "lower ''Coffee Shop'' \<in> set (all_triggers first_file_kb)
   \<and> lower ''Coffee Shop'' \<notin> set (all_triggers second_file_kb)
   \<and> knowledge_base (load_knowledge_base first_files running_globals) = first_file_kb
   \<and> kb_loop
       (knowledge_base
          (load_knowledge_base second_files (load_knowledge_base first_files running_globals)))
       (strip (lower ''Coffee Shop'')) (default_response ''Alex'', False)
     = (''Regarding Coffee:'' @ [CHR 0x0A] @ ''A hot drink'', True)"
  by code_simp

lemma load_knowledge_base_store:
  "knowledge_base (load_knowledge_base files g) =
     (case files (get_or (knowledge_base_file (CONFIG g)) ''knowledge_base.json'') of
        Loaded kb \<Rightarrow> kb | _ \<Rightarrow> [])"
  by (simp add: load_knowledge_base_def Let_def split: file_read.split)

lemma load_knowledge_base_config: "CONFIG (load_knowledge_base files g) = CONFIG g"
  by (simp add: load_knowledge_base_def Let_def split: file_read.split)

lemma kb_loop_matched_iff:
  "snd (kb_loop kb m (r, False)) \<longleftrightarrow> (\<exists>q\<in>set kb. spec_matched m (fst q) (snd q))"
  by (induction kb) (auto simp: topic_matched_iff_spec)

text \<open>
  C8, amended. A second load that reads a store from its file replaces the store
  entirely: the store is the second file's topics, whatever the first load held; a text
  is matched afterwards exactly when a topic of the second file matches it; and every
  reply is the one the second file's store alone gives.
\<close>

theorem reload_replaces:
  assumes "new_files (get_or (knowledge_base_file (CONFIG g)) ''knowledge_base.json'') = Loaded new_kb"
  shows "knowledge_base (load_knowledge_base new_files (load_knowledge_base old_files g)) = new_kb
         \<and> (snd (kb_loop
                   (knowledge_base (load_knowledge_base new_files (load_knowledge_base old_files g)))
                   query (response, False))
              \<longleftrightarrow> (\<exists>q\<in>set new_kb. spec_matched query (fst q) (snd q)))
         \<and> get_ai_response
             (knowledge_base (load_knowledge_base new_files (load_knowledge_base old_files g)))
             speaker message
           = get_ai_response new_kb speaker message"
proof -
  have "knowledge_base (load_knowledge_base new_files (load_knowledge_base old_files g)) = new_kb"
    using assms by (simp add: load_knowledge_base_store load_knowledge_base_config)
  then show ?thesis
    by (simp add: kb_loop_matched_iff)
qed

theorem reload_replaces_witness:
  "knowledge_base (load_knowledge_base second_files (load_knowledge_base first_files running_globals))
     = second_file_kb
   \<and> \<not> snd (kb_loop
       (knowledge_base
          (load_knowledge_base second_files (load_knowledge_base first_files running_globals)))
       ''shop'' (default_response ''Alex'', False))"
proof -
  have a: "second_files (get_or (knowledge_base_file (CONFIG running_globals)) ''knowledge_base.json'')
      = Loaded second_file_kb"
    by code_simp
  have b: "\<not> (\<exists>q\<in>set second_file_kb. spec_matched ''shop'' (fst q) (snd q))"
    by code_simp
  show ?thesis
    using b
      reload_replaces [where new_files = second_files and g = running_globals
          and new_kb = second_file_kb and old_files = first_files
          and query = "''shop''" and response = "default_response ''Alex''"
          and speaker = "''Alex''" and message = "''shop''", OF a]
    by blast
qed

end
